theory Spec2Isabelle
  imports Complex_Main "HOL-Library.Word"
begin

unbundle bit_operations_syntax

chapter \<open>Echo Scribe: the audio transcoding pipeline and the recording session\<close>

text \<open>
  The development embeds four pieces of the application:
  the capture callback \<open>onaudioprocess\<close> of \<open>App\<close>, which turns a block of microphone samples
  into 16-bit PCM; \<open>bufferToWav\<close> of \<open>AudioPlayer\<close>, which wraps a decoded buffer in a RIFF/WAVE
  header; the handlers \<open>stopRecordingFlow\<close>, \<open>handleStartRecording\<close> and
  \<open>handleStopRecording\<close> of \<open>App\<close>; and \<open>synthesizeSpeech\<close> of \<open>geminiService\<close>.
  All definitions come first, the properties after them.
\<close>

section \<open>JavaScript numbers and typed arrays\<close>

text \<open>
  An element of a \<open>Float32Array\<close> is a finite binary fraction, a NaN or an infinity. The finite
  values are embedded in the reals. The only arithmetic the program does on a sample is a
  comparison and one multiplication by \<open>32768\<close> or \<open>32767\<close>; on a 24-bit significand both products
  are exact in double precision, so the real product is the value JavaScript computes.
  The sign of a zero is not modelled: every consumer below maps both zeros to the integer 0.
\<close>

datatype js_number = Fin real | NaN | PosInf | NegInf

type_synonym byte = "8 word"
type_synonym int16 = "16 word"

text \<open>Multiplication of a number by a positive finite constant.\<close>

fun times_const :: "js_number \<Rightarrow> real \<Rightarrow> js_number" where
  "times_const (Fin r) c = Fin (r * c)"
| "times_const NaN c = NaN"
| "times_const PosInf c = PosInf"
| "times_const NegInf c = NegInf"

text \<open>The operator \<open><\<close>: false as soon as one side is NaN.\<close>

fun js_less :: "js_number \<Rightarrow> js_number \<Rightarrow> bool" where
  "js_less NaN y = False"
| "js_less x NaN = False"
| "js_less (Fin a) (Fin b) = (a < b)"
| "js_less x NegInf = False"
| "js_less NegInf y = True"
| "js_less PosInf y = False"
| "js_less (Fin a) PosInf = True"

text \<open>\<open>Math.min\<close> and \<open>Math.max\<close> of two arguments: NaN if either is NaN.\<close>

definition Math_min :: "js_number \<Rightarrow> js_number \<Rightarrow> js_number" where
  "Math_min a b = (if a = NaN \<or> b = NaN then NaN else if js_less b a then b else a)"

definition Math_max :: "js_number \<Rightarrow> js_number \<Rightarrow> js_number" where
  "Math_max a b = (if a = NaN \<or> b = NaN then NaN else if js_less a b then b else a)"

text \<open>
  Storing a number into an \<open>Int16Array\<close> applies the abstract operation ToInt16: a value that
  is not finite becomes 0; a finite one is truncated towards zero and reduced modulo \<open>2^16\<close>
  into the two's-complement range.
\<close>

definition js_truncate :: "real \<Rightarrow> int" where
  "js_truncate r = (if 0 \<le> r then \<lfloor>r\<rfloor> else - \<lfloor>- r\<rfloor>)"

fun ToInt16 :: "js_number \<Rightarrow> int16" where
  "ToInt16 (Fin r) = word_of_int (js_truncate r)"
| "ToInt16 NaN = 0"
| "ToInt16 PosInf = 0"
| "ToInt16 NegInf = 0"

text \<open>
  Reading index \<open>i\<close> of a \<open>Float32Array\<close>. Past the end JavaScript yields \<open>undefined\<close>, which
  every arithmetic use below converts to NaN.
\<close>

definition f32_get :: "js_number list \<Rightarrow> nat \<Rightarrow> js_number" where
  "f32_get xs i = (if i < length xs then xs ! i else NaN)"

text \<open>
  \<open>new Uint8Array(a.buffer)\<close> for an \<open>Int16Array a\<close>: the bytes of each element, low byte first
  (typed arrays use the platform's byte order, little-endian on every platform a browser
  runs on). A write past the end of a typed array is ignored, as \<open>xs[i := v]\<close> is.
\<close>

definition int16_bytes :: "int16 \<Rightarrow> byte list" where
  "int16_bytes w = [ucast w, ucast (drop_bit 8 w)]"

definition Uint8Array_of_Int16Array :: "int16 list \<Rightarrow> byte list" where
  "Uint8Array_of_Int16Array a = concat (map int16_bytes a)"

text \<open>Readers used to state properties of byte buffers: \<open>DataView.getInt16\<close> and
  \<open>DataView.getUint32\<close> with \<open>littleEndian = true\<close>.\<close>

definition getInt16 :: "byte list \<Rightarrow> nat \<Rightarrow> int16" where
  "getInt16 bs off = ucast (bs ! off) OR push_bit 8 (ucast (bs ! (off + 1)))"

definition getUint32 :: "byte list \<Rightarrow> nat \<Rightarrow> nat" where
  "getUint32 bs off = unat (bs ! off) + 256 * unat (bs ! (off + 1))
     + 65536 * unat (bs ! (off + 2)) + 16777216 * unat (bs ! (off + 3))"

section \<open>The capture callback: PCM16 encoding of a sample block\<close>

text \<open>
  \<^verbatim>\<open>
  const inputData = audioProcessingEvent.inputBuffer.getChannelData(0);
  const l = inputData.length;
  const int16 = new Int16Array(l);
  for (let i = 0; i < l; i++) { int16[i] = inputData[i] * 32768; }
  ... encode(new Uint8Array(int16.buffer)) ...
  \<close>
  The loop is a recursion on the index; the array is threaded through it.
\<close>

function onaudioprocess_loop :: "js_number list \<Rightarrow> nat \<Rightarrow> nat \<Rightarrow> int16 list \<Rightarrow> int16 list" where
  "onaudioprocess_loop inputData l i int16 =
     (if i < l
      then onaudioprocess_loop inputData l (Suc i)
             (int16[i := ToInt16 (times_const (f32_get inputData i) 32768)])
      else int16)"
  by pat_completeness auto
termination
  by (relation "measure (\<lambda>(inputData, l, i, int16). l - i)") auto

declare onaudioprocess_loop.simps [simp del]

definition onaudioprocess_int16 :: "js_number list \<Rightarrow> int16 list" where
  "onaudioprocess_int16 inputData =
     (let l = length inputData;
          int16 = replicate l 0
      in onaudioprocess_loop inputData l 0 int16)"

text \<open>The bytes handed to the base64 encoder.\<close>

definition onaudioprocess_bytes :: "js_number list \<Rightarrow> byte list" where
  "onaudioprocess_bytes inputData = Uint8Array_of_Int16Array (onaudioprocess_int16 inputData)"

section \<open>The WAV container builder\<close>

text \<open>
  An \<open>AudioBuffer\<close> carries its channel count, its length in frames, its sample rate and one
  \<open>Float32Array\<close> per channel. The sample rate is taken as a whole number of hertz.
\<close>

record AudioBuffer =
  numberOfChannels :: nat
  buf_length :: nat
  sampleRate :: nat
  channels :: "js_number list list"

text \<open>
  Web Audio guarantees at least one channel and that every channel has \<open>length\<close> frames.
\<close>

definition wf_AudioBuffer :: "AudioBuffer \<Rightarrow> bool" where
  "wf_AudioBuffer b \<longleftrightarrow>
     1 \<le> numberOfChannels b \<and>
     length (channels b) = numberOfChannels b \<and>
     (\<forall>c \<in> set (channels b). length c = buf_length b)"

datatype dom_exception = IndexSizeError

text \<open>\<open>getChannelData\<close> throws \<open>IndexSizeError\<close> for a channel the buffer does not have.\<close>

definition getChannelData :: "AudioBuffer \<Rightarrow> nat \<Rightarrow> dom_exception + js_number list" where
  "getChannelData b c =
     (if c < numberOfChannels b \<and> c < length (channels b)
      then Inr (channels b ! c) else Inl IndexSizeError)"

text \<open>
  \<open>DataView.setUint32(byteOffset, value, true)\<close> and \<open>setUint16\<close>: the value is reduced modulo
  \<open>2^32\<close> (\<open>2^16\<close>) and stored low byte first. Every offset used below is a literal that lies
  inside the 44-byte header, so the \<open>RangeError\<close> of an offset past the end cannot arise.
\<close>

definition setUint32 :: "nat \<Rightarrow> nat \<Rightarrow> byte list \<Rightarrow> byte list" where
  "setUint32 byteOffset v view =
     view[byteOffset := word_of_nat v,
          byteOffset + 1 := word_of_nat (v div 256),
          byteOffset + 2 := word_of_nat (v div 65536),
          byteOffset + 3 := word_of_nat (v div 16777216)]"

definition setUint16 :: "nat \<Rightarrow> nat \<Rightarrow> byte list \<Rightarrow> byte list" where
  "setUint16 byteOffset v view =
     view[byteOffset := word_of_nat v,
          byteOffset + 1 := word_of_nat (v div 256)]"

text \<open>
  \<open>target.set(source, offset)\<close> on a \<open>Uint8Array\<close>. Both uses below fit the target, so the
  \<open>RangeError\<close> of a source that does not fit cannot arise.
\<close>

definition Uint8Array_set :: "byte list \<Rightarrow> byte list \<Rightarrow> nat \<Rightarrow> byte list" where
  "Uint8Array_set target source offset =
     take offset target @ source @ drop (offset + length source) target"

text \<open>
  \<^verbatim>\<open>
  view.setUint32(0, 0x46464952, true);  // "RIFF"
  view.setUint32(4, 36 + len, true);    // file size - 8
  view.setUint32(8, 0x45564157, true);  // "WAVE"
  view.setUint32(12, 0x20746d66, true); // "fmt " chunk
  view.setUint32(16, 16, true);         // format chunk size
  view.setUint16(20, 1, true);          // sample format (1 = PCM)
  view.setUint16(22, numOfChan, true);
  view.setUint32(24, buffer.sampleRate, true);
  view.setUint32(28, buffer.sampleRate * 2 * numOfChan, true); // byte rate
  view.setUint16(32, numOfChan * 2, true); // block align
  view.setUint16(34, 16, true);         // bits per sample
  view.setUint32(36, 0x61746164, true); // "data" chunk
  view.setUint32(40, len, true);        // data chunk size
  \<close>
\<close>

definition wavHeader :: "AudioBuffer \<Rightarrow> byte list" where
  "wavHeader buffer =
     (let numOfChan = numberOfChannels buffer;
          len = buf_length buffer * numOfChan * 2;
          view = replicate 44 0;
          view = setUint32 0 0x46464952 view;
          view = setUint32 4 (36 + len) view;
          view = setUint32 8 0x45564157 view;
          view = setUint32 12 0x20746d66 view;
          view = setUint32 16 16 view;
          view = setUint16 20 1 view;
          view = setUint16 22 numOfChan view;
          view = setUint32 24 (sampleRate buffer) view;
          view = setUint32 28 (sampleRate buffer * 2 * numOfChan) view;
          view = setUint16 32 (numOfChan * 2) view;
          view = setUint16 34 16 view;
          view = setUint32 36 0x61746164 view;
          view = setUint32 40 len view
      in view)"

text \<open>
  \<^verbatim>\<open>
  const pcm = new Int16Array(buffer.length);
  const channelData = buffer.getChannelData(0);
  for (i = 0; i < buffer.length; i++) {
      sample = Math.max(-1, Math.min(1, channelData[i]));
      pcm[i] = sample < 0 ? sample * 0x8000 : sample * 0x7FFF;
  }
  \<close>
\<close>

definition quantize :: "js_number \<Rightarrow> int16" where
  "quantize x =
     (let sample = Math_max (Fin (- 1)) (Math_min (Fin 1) x)
      in ToInt16 (if js_less sample (Fin 0) then times_const sample 0x8000
                  else times_const sample 0x7FFF))"

function bufferToWav_loop :: "js_number list \<Rightarrow> nat \<Rightarrow> nat \<Rightarrow> int16 list \<Rightarrow> int16 list" where
  "bufferToWav_loop channelData n i pcm =
     (if i < n
      then bufferToWav_loop channelData n (Suc i) (pcm[i := quantize (f32_get channelData i)])
      else pcm)"
  by pat_completeness auto
termination
  by (relation "measure (\<lambda>(channelData, n, i, pcm). n - i)") auto

declare bufferToWav_loop.simps [simp del]

text \<open>
  \<^verbatim>\<open>
  const wavBytes = new Uint8Array(44 + pcm.byteLength);
  wavBytes.set(new Uint8Array(wavHeader), 0);
  wavBytes.set(new Uint8Array(pcm.buffer), 44);
  return new Blob([wavBytes], { type: 'audio/wav' });
  \<close>
\<close>

record Blob =
  blob_bytes :: "byte list"
  blob_type :: string

definition bufferToWav :: "AudioBuffer \<Rightarrow> dom_exception + Blob" where
  "bufferToWav buffer =
     (let wavHeader = wavHeader buffer;
          pcm = replicate (buf_length buffer) 0
      in case getChannelData buffer 0 of
           Inl e \<Rightarrow> Inl e
         | Inr channelData \<Rightarrow>
             (let pcm = bufferToWav_loop channelData (buf_length buffer) 0 pcm;
                  pcm_bytes = Uint8Array_of_Int16Array pcm;
                  wavBytes = replicate (44 + length pcm_bytes) 0;
                  wavBytes = Uint8Array_set wavBytes wavHeader 0;
                  wavBytes = Uint8Array_set wavBytes pcm_bytes 44
              in Inr \<lparr>blob_bytes = wavBytes, blob_type = ''audio/wav''\<rparr>))"

section \<open>The text and speech service\<close>

text \<open>
  A JavaScript string is a sequence of UTF-16 code units. \<open>lit\<close> embeds an ASCII literal.
\<close>

type_synonym js_string = "nat list"

definition lit :: "string \<Rightarrow> js_string" where
  "lit s = map of_char s"

text \<open>A thrown \<open>Error\<close> object, with its message.\<close>

datatype js_error = Error string

datatype voice = Male | Female

text \<open>
  The part of a \<open>generateContent\<close> response that \<open>synthesizeSpeech\<close> reads. Every level may be
  absent; the optional chain
  \<open>response.candidates?.[0]?.content?.parts?.[0]?.inlineData?.data\<close> yields \<open>undefined\<close>
  (here \<open>None\<close>) as soon as one level is.
\<close>

datatype inline_data = InlineData (data: "js_string option")
datatype part = Part (inlineData: "inline_data option")
datatype content = Content (parts: "part list option")
datatype candidate = Candidate (content: "content option")
datatype response = Response (candidates: "candidate list option")

definition first_elem :: "'a list option \<Rightarrow> 'a option" where
  "first_elem xs = (case xs of None \<Rightarrow> None | Some [] \<Rightarrow> None | Some (x # _) \<Rightarrow> Some x)"

definition base64Audio_of :: "response \<Rightarrow> js_string option" where
  "base64Audio_of r =
     Option.bind (first_elem (candidates r)) (\<lambda>c.
     Option.bind (content c) (\<lambda>ct.
     Option.bind (first_elem (parts ct)) (\<lambda>p.
     Option.bind (inlineData p) data)))"

text \<open>
  The remote model is a parameter: \<open>generate_text prompt\<close> is the outcome of the call made by
  \<open>summarizeText\<close> (the response's text, or the error the call throws) and
  \<open>generate_audio text voiceName\<close> that of the call made by \<open>synthesizeSpeech\<close>.
\<close>

record gemini_api =
  generate_text :: "js_string \<Rightarrow> js_error + js_string"
  generate_audio :: "js_string \<Rightarrow> string \<Rightarrow> js_error + response"

text \<open>
  \<^verbatim>\<open>
  try {
      const response = await ai.models.generateContent({ model: model, contents: prompt });
      return response.text;
  } catch (error) {
      console.error("Error summarizing text:", error);
      throw new Error("Failed to summarize text.");
  }
  \<close>
\<close>

definition summarize_prompt :: "js_string \<Rightarrow> js_string" where
  "summarize_prompt transcript =
     lit (''Create a concise, abbreviated version of the following voice message transcript. ''
        @ ''Clean it up by removing filler words, pauses, and repetitions, but retain the core ''
        @ ''meaning and tone. Make it as short as possible. Transcript: '' @ [CHR 0x22])
     @ transcript @ lit [CHR 0x22]"

definition summarizeText :: "gemini_api \<Rightarrow> js_string \<Rightarrow> js_error + js_string" where
  "summarizeText ai transcript =
     (case generate_text ai (summarize_prompt transcript) of
        Inr text \<Rightarrow> Inr text
      | Inl error \<Rightarrow> Inl (Error ''Failed to summarize text.''))"

text \<open>
  \<^verbatim>\<open>
  const voiceName = voice === VoiceOption.Male ? 'Puck' : 'Kore';
  try {
      const response = await ai.models.generateContent({ ... });
      const base64Audio = response.candidates?.[0]?.content?.parts?.[0]?.inlineData?.data;
      if (!base64Audio) {
          throw new Error("No audio data received from API.");
      }
      return base64Audio;
  } catch (error) {
      console.error("Error synthesizing speech:", error);
      throw new Error("Failed to synthesize speech.");
  }
  \<close>
  \<open>synthesizeSpeech_try\<close> is the body of the \<open>try\<close> block, \<open>synthesizeSpeech\<close> the whole
  function with its \<open>catch\<close>. \<open>!base64Audio\<close> holds for \<open>undefined\<close> and for the empty string.
\<close>

definition synthesizeSpeech_try :: "gemini_api \<Rightarrow> js_string \<Rightarrow> voice \<Rightarrow> js_error + js_string" where
  "synthesizeSpeech_try ai text voice =
     (let voiceName = (if voice = Male then ''Puck'' else ''Kore'')
      in case generate_audio ai text voiceName of
           Inl error \<Rightarrow> Inl error
         | Inr response \<Rightarrow>
             (case base64Audio_of response of
                None \<Rightarrow> Inl (Error ''No audio data received from API.'')
              | Some base64Audio \<Rightarrow>
                  if base64Audio = [] then Inl (Error ''No audio data received from API.'')
                  else Inr base64Audio))"

definition synthesizeSpeech :: "gemini_api \<Rightarrow> js_string \<Rightarrow> voice \<Rightarrow> js_error + js_string" where
  "synthesizeSpeech ai text voice =
     (case synthesizeSpeech_try ai text voice of
        Inr base64Audio \<Rightarrow> Inr base64Audio
      | Inl error \<Rightarrow> Inl (Error ''Failed to synthesize speech.''))"

section \<open>The recording session\<close>

text \<open>
  The component state of \<open>App\<close>: the React state variables, the refs, and the environment the
  handlers act on. \<open>audioContextRef\<close> holds the state of the context it points to, or \<open>None\<close>
  for \<open>null\<close>; the other refs are \<open>True\<close> when they are not \<open>null\<close>. \<open>sessionPromise\<close> is
  the state of the promise returned by \<open>ai.live.connect\<close>, which outlives the ref.
  State updates take effect at once; the re-rendering between handler calls is not modelled.

  \<open>effects\<close> records, in the order they happen, the calls made on the audio graph, the live
  session, the capture stream and the text and speech service. \<open>microtasks\<close> holds the
  reactions registered with \<open>sessionPromiseRef.current.then(...)\<close>: a reaction never runs
  inside the call that registers it, only after the running synchronous code has finished
  and once the promise is fulfilled. \<open>events\<close> holds the events the live session has yet to
  deliver to its callbacks.
\<close>

datatype promise_state = Pending | Fulfilled | Rejected

datatype context_state = Suspended | Running | Closed

datatype task = CloseSession

datatype event = OnClose

datatype effect =
    SessionClose
  | SourceDisconnect
  | ProcessorDisconnect
  | ProcessorClearCallback
  | ContextClose
  | TracksStop
  | CallSummarizeText js_string
  | CallSynthesizeSpeech js_string voice

record app_state =
  isRecording :: bool
  isProcessing :: bool
  processingStep :: string
  selectedVoice :: voice
  finalAudio :: "js_string option"
  error :: "string option"
  transcriptRef :: js_string
  audioContextRef :: "context_state option"
  scriptProcessorRef :: bool
  mediaStreamSourceRef :: bool
  sessionPromiseRef :: bool
  sessionPromise :: promise_state
  microtasks :: "task list"
  events :: "event list"
  effects :: "effect list"

text \<open>
  \<^verbatim>\<open>
  const stopRecordingFlow = () => {
      setIsRecording(false);
      if (sessionPromiseRef.current) {
          sessionPromiseRef.current.then((session: any) => session.close());
          sessionPromiseRef.current = null;
      }
      if (mediaStreamSourceRef.current) {
          mediaStreamSourceRef.current.disconnect();
          mediaStreamSourceRef.current = null;
      }
      if (scriptProcessorRef.current) {
          scriptProcessorRef.current.disconnect();
          scriptProcessorRef.current.onaudioprocess = null;
          scriptProcessorRef.current = null;
      }
      if (audioContextRef.current && audioContextRef.current.state !== 'closed') {
          audioContextRef.current.close();
          audioContextRef.current = null;
      }
  };
  \<close>
\<close>

definition stopRecordingFlow :: "app_state \<Rightarrow> app_state" where
  "stopRecordingFlow s0 =
     (let s = s0\<lparr>isRecording := False\<rparr>;
          s = (if sessionPromiseRef s
               then s\<lparr>microtasks := microtasks s @ [CloseSession], sessionPromiseRef := False\<rparr>
               else s);
          s = (if mediaStreamSourceRef s
               then s\<lparr>effects := effects s @ [SourceDisconnect], mediaStreamSourceRef := False\<rparr>
               else s);
          s = (if scriptProcessorRef s
               then s\<lparr>effects := effects s @ [ProcessorDisconnect, ProcessorClearCallback],
                      scriptProcessorRef := False\<rparr>
               else s);
          s = (case audioContextRef s of
                 None \<Rightarrow> s
               | Some st \<Rightarrow>
                   if st \<noteq> Closed
                   then s\<lparr>effects := effects s @ [ContextClose], audioContextRef := None\<rparr>
                   else s)
      in s)"

text \<open>
  Running the queued reactions. \<open>session.close()\<close> closes the live session, which then
  delivers its close event. Reactions on a pending promise stay queued; those on a rejected
  promise are never run.
\<close>

fun run_task :: "task \<Rightarrow> app_state \<Rightarrow> app_state" where
  "run_task CloseSession s = s\<lparr>effects := effects s @ [SessionClose], events := events s @ [OnClose]\<rparr>"

definition run_microtasks :: "app_state \<Rightarrow> app_state" where
  "run_microtasks s =
     (case sessionPromise s of
        Fulfilled \<Rightarrow> fold run_task (microtasks s) (s\<lparr>microtasks := []\<rparr>)
      | Pending \<Rightarrow> s
      | Rejected \<Rightarrow> s\<lparr>microtasks := []\<rparr>)"

text \<open>
  The callbacks given to \<open>ai.live.connect\<close>.
  \<^verbatim>\<open>
  onmessage: (message) => {
      if (message.serverContent?.inputTranscription) {
          transcriptRef.current += message.serverContent.inputTranscription.text;
      }
  },
  onerror: (e) => {
      setError('A connection error occurred. Please try again.');
      stopRecordingFlow();
  },
  onclose: (e) => { stream.getTracks().forEach(track => track.stop()); },
  \<close>
  A message is given by the text of its input transcription, if it has one.
\<close>

definition onmessage :: "js_string option \<Rightarrow> app_state \<Rightarrow> app_state" where
  "onmessage message s =
     (case message of
        None \<Rightarrow> s
      | Some text \<Rightarrow> s\<lparr>transcriptRef := transcriptRef s @ text\<rparr>)"

definition onerror :: "app_state \<Rightarrow> app_state" where
  "onerror s = stopRecordingFlow (s\<lparr>error := Some ''A connection error occurred. Please try again.''\<rparr>)"

definition onclose :: "app_state \<Rightarrow> app_state" where
  "onclose s = s\<lparr>effects := effects s @ [TracksStop]\<rparr>"

fun deliver :: "event \<Rightarrow> app_state \<Rightarrow> app_state" where
  "deliver OnClose s = onclose s"

definition deliver_events :: "app_state \<Rightarrow> app_state" where
  "deliver_events s = fold deliver (events s) (s\<lparr>events := []\<rparr>)"

text \<open>
  \<^verbatim>\<open>
  const handleStartRecording = async () => {
      setError(null);
      setFinalAudio(null);
      transcriptRef.current = '';
      if (isRecording) { stopRecordingFlow(); return; }
      try {
          const stream = await navigator.mediaDevices.getUserMedia({ audio: true });
          setIsRecording(true);
          audioContextRef.current = new AudioContext({ sampleRate: 16000 });
          mediaStreamSourceRef.current = audioContextRef.current.createMediaStreamSource(stream);
          scriptProcessorRef.current = audioContextRef.current.createScriptProcessor(4096, 1, 1);
          const ai = new GoogleGenAI({ apiKey: process.env.API_KEY });
          sessionPromiseRef.current = ai.live.connect({ ... });
          scriptProcessorRef.current.onaudioprocess = ...;
          mediaStreamSourceRef.current.connect(scriptProcessorRef.current);
          scriptProcessorRef.current.connect(audioContextRef.current.destination);
      } catch (err) {
          setError("Could not access the microphone. Please check permissions and try again.");
          setIsRecording(false);
      }
  };
  \<close>
  The environment decides whether \<open>getUserMedia\<close> rejects, whether the construction of the
  client or the connection throws after the audio graph has been built, or whether the set-up
  completes.
\<close>

datatype start_outcome = GetUserMediaRejects | ConnectThrows | Started

definition handleStartRecording :: "start_outcome \<Rightarrow> app_state \<Rightarrow> app_state" where
  "handleStartRecording outcome s0 =
     (let s = s0\<lparr>error := None, finalAudio := None, transcriptRef := []\<rparr>
      in if isRecording s then stopRecordingFlow s
         else
           (case outcome of
              GetUserMediaRejects \<Rightarrow>
                s\<lparr>error := Some ''Could not access the microphone. Please check permissions and try again.'',
                  isRecording := False\<rparr>
            | ConnectThrows \<Rightarrow>
                s\<lparr>audioContextRef := Some Running, mediaStreamSourceRef := True,
                  scriptProcessorRef := True,
                  error := Some ''Could not access the microphone. Please check permissions and try again.'',
                  isRecording := False\<rparr>
            | Started \<Rightarrow>
                s\<lparr>isRecording := True, audioContextRef := Some Running,
                  mediaStreamSourceRef := True, scriptProcessorRef := True,
                  sessionPromiseRef := True, sessionPromise := Pending\<rparr>))"

text \<open>
  \<open>String.prototype.trim\<close> removes the white space and line terminators of ECMAScript from
  both ends.
\<close>

definition is_white_space :: "nat \<Rightarrow> bool" where
  "is_white_space c \<longleftrightarrow>
     c \<in> {9, 10, 11, 12, 13, 32, 160, 5760, 8232, 8233, 8239, 8287, 12288, 65279}
     \<or> (8192 \<le> c \<and> c \<le> 8202)"

definition trim :: "js_string \<Rightarrow> js_string" where
  "trim s = rev (dropWhile is_white_space (rev (dropWhile is_white_space s)))"

text \<open>
  \<^verbatim>\<open>
  const handleStopRecording = useCallback(async () => {
      if (!isRecording) return;
      stopRecordingFlow();
      setIsProcessing(true);
      setError(null);
      try {
          await new Promise(resolve => setTimeout(resolve, 500));
          if (!transcriptRef.current.trim()) {
              setError("No speech was detected. Please try recording again.");
              setIsProcessing(false);
              return;
          }
          setProcessingStep('Cleaning up transcript...');
          const summarizedText = await summarizeText(transcriptRef.current);
          setProcessingStep('Synthesizing audio...');
          const audioB64 = await synthesizeSpeech(summarizedText, selectedVoice);
          setFinalAudio(audioB64);
      } catch (err: any) {
          setError(err.message || 'An error occurred during processing.');
      } finally {
          setIsProcessing(false);
          setProcessingStep('');
      }
  }, [isRecording, selectedVoice]);
  \<close>
  The handler gives up control at the first \<open>await\<close>: the queued reactions run, and the messages
  the live session still delivers during the half second (\<open>late\<close>) reach \<open>onmessage\<close> before
  the transcript is read.
\<close>

definition handleStopRecording_catch :: "js_error \<Rightarrow> app_state \<Rightarrow> app_state" where
  "handleStopRecording_catch err s =
     (case err of Error message \<Rightarrow>
        s\<lparr>error := Some (if message = [] then ''An error occurred during processing.'' else message)\<rparr>)"

definition handleStopRecording_finally :: "app_state \<Rightarrow> app_state" where
  "handleStopRecording_finally s = s\<lparr>isProcessing := False, processingStep := []\<rparr>"

definition handleStopRecording :: "gemini_api \<Rightarrow> js_string option list \<Rightarrow> app_state \<Rightarrow> app_state" where
  "handleStopRecording ai late s0 =
     (if \<not> isRecording s0 then s0
      else
        let s = stopRecordingFlow s0;
            s = s\<lparr>isProcessing := True, error := None\<rparr>;
            s = run_microtasks s;
            s = fold onmessage late s
        in if trim (transcriptRef s) = []
           then handleStopRecording_finally
                  (s\<lparr>error := Some ''No speech was detected. Please try recording again.'',
                     isProcessing := False\<rparr>)
           else
             let s = s\<lparr>processingStep := ''Cleaning up transcript...'',
                        effects := effects s @ [CallSummarizeText (transcriptRef s)]\<rparr>
             in case summarizeText ai (transcriptRef s) of
                  Inl err \<Rightarrow> handleStopRecording_finally (handleStopRecording_catch err s)
                | Inr summarizedText \<Rightarrow>
                    (let s = s\<lparr>processingStep := ''Synthesizing audio...'',
                               effects := effects s
                                 @ [CallSynthesizeSpeech summarizedText (selectedVoice s)]\<rparr>
                     in case synthesizeSpeech ai summarizedText (selectedVoice s) of
                          Inl err \<Rightarrow> handleStopRecording_finally (handleStopRecording_catch err s)
                        | Inr audioB64 \<Rightarrow>
                            handleStopRecording_finally (s\<lparr>finalAudio := Some audioB64\<rparr>)))"

text \<open>
  Notation for the properties of the header: the little-endian bytes of a number, the bytes
  of an ASCII tag, and the payload the specification asks for, in which the channels are
  interleaved frame by frame in channel order.
\<close>

definition le32 :: "nat \<Rightarrow> byte list" where
  "le32 v = [word_of_nat v, word_of_nat (v div 256),
             word_of_nat (v div 65536), word_of_nat (v div 16777216)]"

definition le16 :: "nat \<Rightarrow> byte list" where
  "le16 v = [word_of_nat v, word_of_nat (v div 256)]"

definition ascii :: "string \<Rightarrow> byte list" where
  "ascii s = map of_char s"

definition spec_interleaved_payload :: "AudioBuffer \<Rightarrow> byte list" where
  "spec_interleaved_payload b =
     Uint8Array_of_Int16Array (map quantize (concat (transpose (channels b))))"

text \<open>A two-channel buffer of one frame, and a one-channel buffer of three frames.\<close>

definition stereo_buffer :: AudioBuffer where
  "stereo_buffer =
     \<lparr>numberOfChannels = 2, buf_length = 1, sampleRate = 44100,
      channels = [[Fin (1 / 2)], [Fin (- (1 / 2))]]\<rparr>"

definition mono_buffer :: AudioBuffer where
  "mono_buffer =
     \<lparr>numberOfChannels = 1, buf_length = 3, sampleRate = 24000,
      channels = [[Fin (1 / 2), Fin (- 3), Fin (- (1 / 4))]]\<rparr>"

text \<open>
  Notation for the properties of the session. \<open>context_open\<close> is the guard of the last block of
  \<open>stopRecordingFlow\<close>; \<open>torn_down\<close> says that no resource is left for it to release;
  \<open>set_up\<close> describes a recording in progress: every ref set, the connection made, nothing
  queued. \<open>is_service_call\<close> picks the calls to the text and speech service out of a trace.
\<close>

definition context_open :: "app_state \<Rightarrow> bool" where
  "context_open s = (case audioContextRef s of None \<Rightarrow> False | Some st \<Rightarrow> st \<noteq> Closed)"

definition torn_down :: "app_state \<Rightarrow> bool" where
  "torn_down s \<longleftrightarrow>
     \<not> isRecording s \<and> \<not> sessionPromiseRef s \<and> \<not> mediaStreamSourceRef s \<and>
     \<not> scriptProcessorRef s \<and> \<not> context_open s"

definition set_up :: "app_state \<Rightarrow> bool" where
  "set_up s \<longleftrightarrow>
     sessionPromiseRef s \<and> sessionPromise s = Fulfilled \<and>
     mediaStreamSourceRef s \<and> scriptProcessorRef s \<and> context_open s \<and>
     microtasks s = [] \<and> events s = []"

fun is_service_call :: "effect \<Rightarrow> bool" where
  "is_service_call (CallSummarizeText t) = True"
| "is_service_call (CallSynthesizeSpeech t v) = True"
| "is_service_call e = False"

definition message_text :: "js_string option \<Rightarrow> js_string" where
  "message_text m = (case m of None \<Rightarrow> [] | Some text \<Rightarrow> text)"

text \<open>
  The order of teardown as the specification words it: the capture source is disconnected
  before the processing node, the processing node is disconnected and its callback cleared
  before the live session is closed, and the live session is closed before the capture device
  is released. \<open>release\<close> is the effect taken as the release of the capture device: the close
  of the audio context, which is the last resource \<open>stopRecordingFlow\<close> handles, or the stop of
  the capture stream's tracks.
\<close>

definition occurs_before :: "effect \<Rightarrow> effect \<Rightarrow> effect list \<Rightarrow> bool" where
  "occurs_before a b tr \<longleftrightarrow> b \<in> set tr \<and> a \<in> set (takeWhile (\<lambda>x. x \<noteq> b) tr)"

definition spec_teardown_order :: "effect \<Rightarrow> effect list \<Rightarrow> bool" where
  "spec_teardown_order release tr \<longleftrightarrow>
     occurs_before SourceDisconnect ProcessorDisconnect tr \<and>
     occurs_before ProcessorDisconnect SessionClose tr \<and>
     occurs_before ProcessorClearCallback SessionClose tr \<and>
     occurs_before SessionClose release tr"

text \<open>
  A recording in progress with a given state of the connection promise and a given transcript,
  and a remote model that answers every request.
\<close>

definition recording_state :: "promise_state \<Rightarrow> js_string \<Rightarrow> app_state" where
  "recording_state p t =
     \<lparr>isRecording = True, isProcessing = False, processingStep = [], selectedVoice = Female,
      finalAudio = None, error = None, transcriptRef = t,
      audioContextRef = Some Running, scriptProcessorRef = True, mediaStreamSourceRef = True,
      sessionPromiseRef = True, sessionPromise = p, microtasks = [], events = [], effects = []\<rparr>"

definition echo_api :: gemini_api where
  "echo_api =
     \<lparr>generate_text = (\<lambda>prompt. Inr (lit ''Hello world.'')),
      generate_audio = (\<lambda>text voiceName.
        Inr (Response (Some [Candidate (Some (Content (Some
          [Part (Some (InlineData (Some (lit ''AAAA''))))])))])))\<rparr>"

section \<open>Properties\<close>

subsection \<open>Typed arrays\<close>

lemma getInt16_int16_bytes: "getInt16 (int16_bytes w @ bs) 0 = w"
  unfolding getInt16_def int16_bytes_def
  by (simp, rule bit_word_eqI) (auto simp: bit_simps)

lemma length_Uint8Array_of_Int16Array:
  "length (Uint8Array_of_Int16Array a) = 2 * length a"
  by (induction a) (simp_all add: Uint8Array_of_Int16Array_def int16_bytes_def)

lemma getInt16_Uint8Array_of_Int16Array:
  "i < length a \<Longrightarrow> getInt16 (Uint8Array_of_Int16Array a) (2 * i) = a ! i"
proof (induction a arbitrary: i)
  case Nil
  then show ?case by simp
next
  case (Cons w ws)
  show ?case
  proof (cases i)
    case 0
    then show ?thesis
      using getInt16_int16_bytes [of w "Uint8Array_of_Int16Array ws"]
      by (simp add: Uint8Array_of_Int16Array_def)
  next
    case (Suc j)
    with Cons.prems have j: "j < length ws" by simp
    have "getInt16 (Uint8Array_of_Int16Array (w # ws)) (2 * i)
        = getInt16 (Uint8Array_of_Int16Array ws) (2 * j)"
      using Suc by (simp add: Uint8Array_of_Int16Array_def int16_bytes_def getInt16_def)
    with Cons.IH [OF j] Suc show ?thesis by simp
  qed
qed

lemma sint_int16_of_int:
  "sint (word_of_int z :: int16) = (z + 32768) mod 65536 - 32768"
  by (simp add: sint_sbintrunc' signed_take_bit_eq_take_bit_shift take_bit_eq_mod)

subsection \<open>The capture loop computes a map\<close>

lemma onaudioprocess_loop_eq:
  "i \<le> length inputData \<Longrightarrow> length int16 = length inputData \<Longrightarrow>
   onaudioprocess_loop inputData (length inputData) i int16
     = take i int16 @ map (\<lambda>s. ToInt16 (times_const s 32768)) (drop i inputData)"
proof (induction inputData "length inputData" i int16 rule: onaudioprocess_loop.induct)
  case (1 inputData i int16)
  show ?case
  proof (cases "i < length inputData")
    case True
    let ?v = "ToInt16 (times_const (f32_get inputData i) 32768)"
    have step: "onaudioprocess_loop inputData (length inputData) i int16
        = take (Suc i) (int16[i := ?v])
          @ map (\<lambda>s. ToInt16 (times_const s 32768)) (drop (Suc i) inputData)"
      using "1.hyps" [OF True] True "1.prems"
      by (subst onaudioprocess_loop.simps) simp
    have "take (Suc i) (int16[i := ?v]) = take i int16 @ [?v]"
      using True "1.prems" by (simp add: take_Suc_conv_app_nth)
    moreover have "drop i inputData = inputData ! i # drop (Suc i) inputData"
      using True by (simp add: Cons_nth_drop_Suc)
    ultimately show ?thesis
      using step True by (simp add: f32_get_def)
  next
    case False
    with "1.prems" show ?thesis
      by (subst onaudioprocess_loop.simps) simp
  qed
qed

lemma onaudioprocess_int16_eq:
  "onaudioprocess_int16 inputData = map (\<lambda>s. ToInt16 (times_const s 32768)) inputData"
  using onaudioprocess_loop_eq [of 0 inputData "replicate (length inputData) 0"]
  by (simp add: onaudioprocess_int16_def)

subsection \<open>What the capture encoder writes\<close>

lemma getInt16_onaudioprocess_bytes:
  "i < length inputData \<Longrightarrow>
   getInt16 (onaudioprocess_bytes inputData) (2 * i)
     = ToInt16 (times_const (inputData ! i) 32768)"
  using getInt16_Uint8Array_of_Int16Array [of i "onaudioprocess_int16 inputData"]
  by (simp add: onaudioprocess_bytes_def onaudioprocess_int16_eq)

lemma truncate_upper_band:
  "32768 \<le> x \<Longrightarrow> x < 65536 \<Longrightarrow> 32768 \<le> js_truncate x \<and> js_truncate x < 65536"
  unfolding js_truncate_def by (simp add: le_floor_iff floor_less_iff)

lemma truncate_lower_band:
  "- 65536 < x \<Longrightarrow> x \<le> - 32769 \<Longrightarrow> - 65536 < js_truncate x \<and> js_truncate x \<le> - 32769"
proof -
  assume a: "- 65536 < x" "x \<le> - 32769"
  then have "32769 \<le> \<lfloor>- x\<rfloor>" and "\<lfloor>- x\<rfloor> < 65536"
    by (simp_all add: le_floor_iff floor_less_iff)
  with a show ?thesis unfolding js_truncate_def by simp
qed

text \<open>
  Claim C2, as the code has it. For every block of samples the encoder emits exactly two bytes
  per sample. The little-endian 16-bit word of a finite sample \<open>s\<close> is \<open>s \<times> 32768\<close> truncated
  towards zero and reduced modulo \<open>2^16\<close> into \<open>[-32768, 32767]\<close>; a NaN or an infinite sample
  gives the word 0. The value is not rounded to nearest.
\<close>

theorem onaudioprocess_pcm16_truncates:
  "length (onaudioprocess_bytes inputData) = 2 * length inputData \<and>
   (\<forall>i<length inputData.
      case inputData ! i of
        Fin r \<Rightarrow> sint (getInt16 (onaudioprocess_bytes inputData) (2 * i))
                   = (js_truncate (r * 32768) + 32768) mod 65536 - 32768
      | _ \<Rightarrow> getInt16 (onaudioprocess_bytes inputData) (2 * i) = 0)"
proof -
  have "length (onaudioprocess_bytes inputData) = 2 * length inputData"
    by (simp add: onaudioprocess_bytes_def length_Uint8Array_of_Int16Array
        onaudioprocess_int16_eq)
  moreover have "case inputData ! i of
        Fin r \<Rightarrow> sint (getInt16 (onaudioprocess_bytes inputData) (2 * i))
                   = (js_truncate (r * 32768) + 32768) mod 65536 - 32768
      | _ \<Rightarrow> getInt16 (onaudioprocess_bytes inputData) (2 * i) = 0"
    if "i < length inputData" for i
    using getInt16_onaudioprocess_bytes [OF that]
    by (cases "inputData ! i") (simp_all add: sint_int16_of_int)
  ultimately show ?thesis by blast
qed

theorem onaudioprocess_pcm16_truncates_witness:
  "length (onaudioprocess_bytes [Fin (3 / 131072), Fin 1, NaN]) = 6 \<and>
   (0::nat) < length [Fin (3 / 131072), Fin 1, NaN] \<and>
   sint (getInt16 (onaudioprocess_bytes [Fin (3 / 131072), Fin 1, NaN]) 0) = 0 \<and>
   sint (getInt16 (onaudioprocess_bytes [Fin (3 / 131072), Fin 1, NaN]) 2) = - 32768 \<and>
   getInt16 (onaudioprocess_bytes [Fin (3 / 131072), Fin 1, NaN]) 4 = 0"
proof -
  let ?xs = "[Fin (3 / 131072), Fin 1, NaN]"
  note t = onaudioprocess_pcm16_truncates [of ?xs]
  from t have len: "length (onaudioprocess_bytes ?xs) = 6" by simp
  from t have all: "\<And>i. i < length ?xs \<Longrightarrow>
      (case ?xs ! i of
        Fin r \<Rightarrow> sint (getInt16 (onaudioprocess_bytes ?xs) (2 * i))
                   = (js_truncate (r * 32768) + 32768) mod 65536 - 32768
      | _ \<Rightarrow> getInt16 (onaudioprocess_bytes ?xs) (2 * i) = 0)"
    by blast
  from all [of 0] have a0: "sint (getInt16 (onaudioprocess_bytes ?xs) 0) = 0"
    by (simp add: js_truncate_def)
  from all [of 1] have a1: "sint (getInt16 (onaudioprocess_bytes ?xs) 2) = - 32768"
    by (simp add: js_truncate_def)
  from all [of 2] have a2: "getInt16 (onaudioprocess_bytes ?xs) 4 = 0"
    by simp
  from len a0 a1 a2 show ?thesis by simp
qed

text \<open>
  Claim C2 as the specification words it asks for \<open>round(s \<times> 32768)\<close>. The sample
  \<open>3 / 2^17\<close> (a \<open>Float32Array\<close> value) scales to \<open>0.75\<close>, which rounds to 1; the encoder
  writes 0.
\<close>

theorem onaudioprocess_not_round_counterexample:
  "sint (getInt16 (onaudioprocess_bytes [Fin (3 / 131072)]) 0) \<noteq> round (3 / 131072 * 32768 :: real)"
proof -
  have "sint (getInt16 (onaudioprocess_bytes [Fin (3 / 131072)]) 0) = 0"
    using getInt16_onaudioprocess_bytes [of 0 "[Fin (3 / 131072)]"]
    by (simp add: js_truncate_def)
  moreover have "round (3 / 131072 * 32768 :: real) = 1"
    by (simp add: round_def)
  ultimately show ?thesis by simp
qed

text \<open>
  Claim C9. A finite capture sample whose scaled value \<open>s \<times> 32768\<close> lies outside
  \<open>[-32768, 32767]\<close> is not clamped: the word written is the truncated value reduced modulo
  \<open>2^16\<close>. In the first band above the range the result is the truncated value minus \<open>65536\<close>,
  a negative number for a positive sample; in the first band below the range it is the
  truncated value plus \<open>65536\<close>, a positive number for a negative sample.
\<close>

theorem onaudioprocess_out_of_range_wraps:
  assumes "i < length inputData"
    and "inputData ! i = Fin r"
    and "r * 32768 < - 32768 \<or> 32767 < r * 32768"
  shows "sint (getInt16 (onaudioprocess_bytes inputData) (2 * i))
           = (js_truncate (r * 32768) + 32768) mod 65536 - 32768
       \<and> (32768 \<le> r * 32768 \<and> r * 32768 < 65536 \<longrightarrow>
            sint (getInt16 (onaudioprocess_bytes inputData) (2 * i)) = js_truncate (r * 32768) - 65536
          \<and> sint (getInt16 (onaudioprocess_bytes inputData) (2 * i)) < 0)
       \<and> (- 65536 < r * 32768 \<and> r * 32768 \<le> - 32769 \<longrightarrow>
            sint (getInt16 (onaudioprocess_bytes inputData) (2 * i)) = js_truncate (r * 32768) + 65536
          \<and> 0 < sint (getInt16 (onaudioprocess_bytes inputData) (2 * i)))"
proof -
  let ?v = "sint (getInt16 (onaudioprocess_bytes inputData) (2 * i))"
  let ?t = "js_truncate (r * 32768)"
  have v: "?v = (?t + 32768) mod 65536 - 32768"
    using getInt16_onaudioprocess_bytes [OF assms(1)] assms(2)
    by (simp add: sint_int16_of_int)
  have up: "?v = ?t - 65536 \<and> ?v < 0" if "32768 \<le> r * 32768" "r * 32768 < 65536"
  proof -
    from truncate_upper_band [OF that] have b: "32768 \<le> ?t" "?t < 65536" by simp_all
    then have "(?t + 32768) mod 65536 = ?t - 32768"
      using mod_pos_pos_trivial [of "?t - 32768" 65536] mod_add_self2 [of "?t - 32768" 65536]
      by (simp add: algebra_simps)
    with v b show ?thesis by simp
  qed
  have down: "?v = ?t + 65536 \<and> 0 < ?v" if "- 65536 < r * 32768" "r * 32768 \<le> - 32769"
  proof -
    from truncate_lower_band [OF that] have b: "- 65536 < ?t" "?t \<le> - 32769" by simp_all
    then have "(?t + 32768) mod 65536 = ?t + 98304"
      using mod_pos_pos_trivial [of "?t + 98304" 65536] mod_add_self2 [of "?t + 32768" 65536]
      by (simp add: algebra_simps)
    with v b show ?thesis by simp
  qed
  from v up down show ?thesis by blast
qed

theorem onaudioprocess_out_of_range_wraps_witness:
  "(0::nat) < length [Fin 1] \<and> [Fin 1] ! 0 = Fin 1 \<and> (32767::real) < 1 * 32768 \<and>
   sint (getInt16 (onaudioprocess_bytes [Fin 1]) 0) = - 32768 \<and>
   sint (getInt16 (onaudioprocess_bytes [Fin 1]) 0) < 0"
proof -
  have h1: "(0::nat) < length [Fin 1]" by simp
  have h2: "[Fin 1] ! 0 = Fin 1" by simp
  have h3: "(1::real) * 32768 < - 32768 \<or> 32767 < (1::real) * 32768" by simp
  from onaudioprocess_out_of_range_wraps [OF h1 h2 h3]
  show ?thesis by (simp add: js_truncate_def)
qed

subsection \<open>The header and the payload of the WAV builder\<close>

lemma replicate44:
  "replicate 44 (x::byte) =
     [x, x, x, x, x, x, x, x, x, x, x, x, x, x, x, x, x, x, x, x, x, x,
      x, x, x, x, x, x, x, x, x, x, x, x, x, x, x, x, x, x, x, x, x, x]"
  by (simp add: numeral_eq_Suc)

lemma list_update_Cons_numeral: "(x # xs)[numeral k := y] = x # xs[pred_numeral k := y]"
  by (simp add: numeral_eq_Suc)

lemma list_update_Cons_1: "(x # xs)[1 := y] = x # xs[0 := y]"
  by simp

lemma wavHeader_eq:
  "wavHeader b =
     le32 0x46464952 @ le32 (36 + buf_length b * numberOfChannels b * 2) @ le32 0x45564157
     @ le32 0x20746d66 @ le32 16 @ le16 1 @ le16 (numberOfChannels b)
     @ le32 (sampleRate b) @ le32 (sampleRate b * 2 * numberOfChannels b)
     @ le16 (numberOfChannels b * 2) @ le16 16 @ le32 0x61746164
     @ le32 (buf_length b * numberOfChannels b * 2)"
  unfolding wavHeader_def Let_def setUint32_def setUint16_def le32_def le16_def replicate44
  by (simp only: list_update_Cons_numeral list_update_Cons_1 list_update_code
      pred_numeral_simps Num.BitM.simps arith_simps append.simps add_0
      One_nat_def [symmetric] add_numeral_left numeral_plus_numeral numeral_One [symmetric]
      add.left_neutral)


lemma le32_value:
  "unat (word_of_nat v :: byte) + 256 * unat (word_of_nat (v div 256) :: byte)
     + 65536 * unat (word_of_nat (v div 65536) :: byte)
     + 16777216 * unat (word_of_nat (v div 16777216) :: byte)
   = v mod 4294967296"
proof -
  have a: "v mod 4294967296 = v mod 256 + 256 * (v div 256 mod 16777216)"
    using mod_mult2_eq [of v 256 16777216] by simp
  have b: "v div 256 mod 16777216 = v div 256 mod 256 + 256 * (v div 65536 mod 65536)"
    using mod_mult2_eq [of "v div 256" 256 65536] by (simp add: div_mult2_eq [symmetric])
  have c: "v div 65536 mod 65536 = v div 65536 mod 256 + 256 * (v div 16777216 mod 256)"
    using mod_mult2_eq [of "v div 65536" 256 256] by (simp add: div_mult2_eq [symmetric])
  show ?thesis
    by (simp add: unat_of_nat a b c)
qed

lemma length_wavHeader: "length (wavHeader b) = 44"
  by (simp add: wavHeader_eq le32_def le16_def)


lemma bufferToWav_loop_eq:
  "i \<le> n \<Longrightarrow> length pcm = n \<Longrightarrow>
   bufferToWav_loop channelData n i pcm
     = take i pcm @ map (\<lambda>j. quantize (f32_get channelData j)) [i..<n]"
proof (induction channelData n i pcm rule: bufferToWav_loop.induct)
  case (1 channelData n i pcm)
  show ?case
  proof (cases "i < n")
    case True
    let ?v = "quantize (f32_get channelData i)"
    have step: "bufferToWav_loop channelData n i pcm
        = take (Suc i) (pcm[i := ?v]) @ map (\<lambda>j. quantize (f32_get channelData j)) [Suc i..<n]"
      using "1.IH" [OF True] True "1.prems"
      by (subst bufferToWav_loop.simps) simp
    have "take (Suc i) (pcm[i := ?v]) = take i pcm @ [?v]"
      using True "1.prems" by (simp add: take_Suc_conv_app_nth)
    with step True show ?thesis
      by (simp add: upt_conv_Cons)
  next
    case False
    with "1.prems" show ?thesis
      by (subst bufferToWav_loop.simps) simp
  qed
qed


lemma map_f32_get:
  "map (\<lambda>j. quantize (f32_get xs j)) [0..<length xs] = map quantize xs"
  by (rule nth_equalityI) (simp_all add: f32_get_def)



lemma bufferToWav_eq:
  assumes "1 \<le> numberOfChannels b" "length (channels b) = numberOfChannels b"
  shows "bufferToWav b = Inr \<lparr>blob_bytes = wavHeader b @ Uint8Array_of_Int16Array
            (map (\<lambda>j. quantize (f32_get (channels b ! 0) j)) [0..<buf_length b]),
          blob_type = ''audio/wav''\<rparr>"
  using assms bufferToWav_loop_eq [of 0 "buf_length b" "replicate (buf_length b) 0" "channels b ! 0"]
  by (simp add: bufferToWav_def getChannelData_def Let_def Uint8Array_set_def length_wavHeader
      length_Uint8Array_of_Int16Array)

lemma quantize_Fin:
  "sint (quantize (Fin r)) =
     (let c = max (- 1) (min 1 r)
      in if c < 0 then js_truncate (c * 32768) else js_truncate (c * 32767))"
proof -
  define c where "c = max (- 1) (min 1 r)"
  have c: "- 1 \<le> c" "c \<le> 1" by (simp_all add: c_def)
  have clamp: "Math_max (Fin (- 1)) (Math_min (Fin 1) (Fin r)) = Fin c"
    by (auto simp: Math_max_def Math_min_def c_def max_def min_def)
  show ?thesis
  proof (cases "c < 0")
    case True
    have "32768 * c \<ge> - 32768" using c by simp
    then have "\<lfloor>- (c * 32768)\<rfloor> \<le> 32768" "0 \<le> \<lfloor>- (c * 32768)\<rfloor>"
      using True by (simp_all add: floor_le_iff)
    then have "- 32768 \<le> js_truncate (c * 32768)" "js_truncate (c * 32768) \<le> 0"
      using True by (simp_all add: js_truncate_def)
    then have "sint (word_of_int (js_truncate (c * 32768)) :: int16) = js_truncate (c * 32768)"
      by (simp add: sint_int16_of_int)
    with True clamp show ?thesis
      by (simp add: quantize_def c_def [symmetric])
  next
    case False
    then have "0 \<le> \<lfloor>c * 32767\<rfloor>" "\<lfloor>c * 32767\<rfloor> \<le> 32767"
      using c by (simp_all add: floor_le_iff le_floor_iff)
    then have "0 \<le> js_truncate (c * 32767)" "js_truncate (c * 32767) \<le> 32767"
      using False by (simp_all add: js_truncate_def)
    then have "sint (word_of_int (js_truncate (c * 32767)) :: int16) = js_truncate (c * 32767)"
      by (simp add: sint_int16_of_int)
    with False clamp show ?thesis
      by (simp add: quantize_def c_def [symmetric])
  qed
qed


lemma quantize_nonfinite:
  "quantize NaN = 0" "sint (quantize PosInf) = 32767" "sint (quantize NegInf) = - 32768"
  by (simp_all add: quantize_def Math_max_def Math_min_def js_truncate_def)

lemma bufferToWav_wf:
  assumes "wf_AudioBuffer b"
  shows "bufferToWav b = Inr \<lparr>blob_bytes = wavHeader b @ Uint8Array_of_Int16Array
            (map quantize (channels b ! 0)), blob_type = ''audio/wav''\<rparr>"
proof -
  from assms have n: "1 \<le> numberOfChannels b" "length (channels b) = numberOfChannels b"
    by (simp_all add: wf_AudioBuffer_def)
  then have "channels b ! 0 \<in> set (channels b)" by simp
  with assms have "length (channels b ! 0) = buf_length b"
    by (simp add: wf_AudioBuffer_def)
  then have "map (\<lambda>j. quantize (f32_get (channels b ! 0) j)) [0..<buf_length b]
      = map quantize (channels b ! 0)"
    using map_f32_get [of "channels b ! 0"] by simp
  with bufferToWav_eq [OF n] show ?thesis by simp
qed

lemma getInt16_after_header:
  "length hs = 44 \<Longrightarrow> getInt16 (hs @ bs) (44 + k) = getInt16 bs k"
  by (simp add: getInt16_def nth_append)

lemma wavHeader_tags:
  "take 4 (wavHeader b @ p) = ascii ''RIFF''"
  "take 4 (drop 8 (wavHeader b @ p)) = ascii ''WAVE''"
  by (simp_all add: wavHeader_eq le32_def le16_def ascii_def)

lemma wavHeader_sizes:
  "getUint32 (wavHeader b @ p) 4 = (36 + buf_length b * numberOfChannels b * 2) mod 4294967296"
  "getUint32 (wavHeader b @ p) 40 = (buf_length b * numberOfChannels b * 2) mod 4294967296"
  using le32_value [of "36 + buf_length b * numberOfChannels b * 2"]
        le32_value [of "buf_length b * numberOfChannels b * 2"]
  by (simp_all add: wavHeader_eq le32_def le16_def getUint32_def)

lemma wf_stereo_buffer: "wf_AudioBuffer stereo_buffer"
  by (simp add: wf_AudioBuffer_def stereo_buffer_def)

lemma wf_mono_buffer: "wf_AudioBuffer mono_buffer"
  by (simp add: wf_AudioBuffer_def mono_buffer_def)

lemma quantize_half: "quantize (Fin (1 / 2)) = 16383" "quantize (Fin (- (1 / 2))) = - 16384"
  by (simp_all add: quantize_def Math_max_def Math_min_def js_truncate_def)

lemma stereo_payload:
  "Uint8Array_of_Int16Array (map quantize (channels stereo_buffer ! 0)) = [0xFF, 0x3F]"
  by (simp add: stereo_buffer_def quantize_half Uint8Array_of_Int16Array_def int16_bytes_def)

lemma spec_stereo: "spec_interleaved_payload stereo_buffer = [0xFF, 0x3F, 0x00, 0xC0]"
  by (simp add: spec_interleaved_payload_def stereo_buffer_def quantize_half Uint8Array_of_Int16Array_def int16_bytes_def)

text \<open>
  For every well-formed buffer the builder returns the header followed by two bytes per frame
  of channel 0, whatever the channel count; the header declares
  \<open>2 \<times> numberOfChannels \<times> length\<close> bytes of data.
\<close>

lemma bufferToWav_length:
  assumes "wf_AudioBuffer b"
  shows "case bufferToWav b of
           Inl e \<Rightarrow> False
         | Inr blob \<Rightarrow> length (blob_bytes blob) = 44 + 2 * buf_length b"
proof -
  from assms have "1 \<le> numberOfChannels b" "length (channels b) = numberOfChannels b"
    by (simp_all add: wf_AudioBuffer_def)
  then have "channels b ! 0 \<in> set (channels b)" by simp
  with assms have "length (channels b ! 0) = buf_length b"
    by (simp add: wf_AudioBuffer_def)
  then show ?thesis
    by (simp add: bufferToWav_wf [OF assms] length_wavHeader length_Uint8Array_of_Int16Array)
qed

lemma bufferToWav_header_fields:
  assumes "wf_AudioBuffer b"
  shows "case bufferToWav b of
           Inl e \<Rightarrow> False
         | Inr blob \<Rightarrow>
             take 4 (blob_bytes blob) = ascii ''RIFF'' \<and>
             take 4 (drop 8 (blob_bytes blob)) = ascii ''WAVE'' \<and>
             getUint32 (blob_bytes blob) 4
               = (36 + buf_length b * numberOfChannels b * 2) mod 4294967296 \<and>
             getUint32 (blob_bytes blob) 40
               = (buf_length b * numberOfChannels b * 2) mod 4294967296"
proof -
  let ?p = "Uint8Array_of_Int16Array (map quantize (channels b ! 0))"
  show ?thesis
    using wavHeader_tags [of b ?p] wavHeader_sizes [of b ?p]
    by (simp add: bufferToWav_wf [OF assms] del: take_append drop_append)
qed

text \<open>
  Claim C1 at the two-channel buffer of one frame, with the samples \<open>1/2\<close> on channel 0 and
  \<open>-1/2\<close> on channel 1. The claim asks for \<open>44 + 2 \<times> 2 \<times> 1 = 48\<close> bytes, a data-chunk size
  equal to the payload length, and the interleaved payload \<open>FF 3F 00 C0\<close>. The builder returns
  46 bytes, declares a data chunk of 4 bytes and writes the 2 bytes of channel 0 only.
\<close>

theorem bufferToWav_stereo_drops_channel:
  "case bufferToWav stereo_buffer of
     Inl e \<Rightarrow> False
   | Inr blob \<Rightarrow>
       length (blob_bytes blob) = 46 \<and>
       44 + 2 * numberOfChannels stereo_buffer * buf_length stereo_buffer = 48 \<and>
       getUint32 (blob_bytes blob) 40 = 4 \<and>
       drop 44 (blob_bytes blob) = [0xFF, 0x3F] \<and>
       spec_interleaved_payload stereo_buffer = [0xFF, 0x3F, 0x00, 0xC0]"
proof -
  have "numberOfChannels stereo_buffer = 2" "buf_length stereo_buffer = 1"
    by (simp_all add: stereo_buffer_def)
  then show ?thesis
    using wavHeader_sizes(2) [of stereo_buffer "[0xFF, 0x3F]"]
    by (simp add: bufferToWav_wf [OF wf_stereo_buffer] stereo_payload spec_stereo
        length_wavHeader)
qed

text \<open>
  Claim C4 at the same buffer. The tags \<open>RIFF\<close> and \<open>WAVE\<close> are in place, the word at offset 4
  is 36 plus the declared data size, but the word at offset 40 is 4 while the payload that
  follows the header has 2 bytes.
\<close>

theorem bufferToWav_stereo_header_overstates:
  "case bufferToWav stereo_buffer of
     Inl e \<Rightarrow> False
   | Inr blob \<Rightarrow>
       take 4 (blob_bytes blob) = ascii ''RIFF'' \<and>
       take 4 (drop 8 (blob_bytes blob)) = ascii ''WAVE'' \<and>
       getUint32 (blob_bytes blob) 4 = 40 \<and>
       getUint32 (blob_bytes blob) 40 = 4 \<and>
       length (drop 44 (blob_bytes blob)) = 2"
proof -
  have "numberOfChannels stereo_buffer = 2" "buf_length stereo_buffer = 1"
    by (simp_all add: stereo_buffer_def)
  then show ?thesis
    using wavHeader_sizes [of stereo_buffer "[0xFF, 0x3F]"]
          wavHeader_tags [of stereo_buffer "[0xFF, 0x3F]"]
    by (simp add: bufferToWav_wf [OF wf_stereo_buffer] stereo_payload length_wavHeader)
qed

text \<open>
  Claim C3. In the builder's encode pass a finite sample \<open>r\<close> of the channel that is written
  is first clamped to \<open>c = max (-1) (min 1 r)\<close>, then scaled by 32768 when \<open>c\<close> is negative and
  by 32767 otherwise, and the 16-bit word stored at its place in the payload is the scaled
  value truncated towards zero, with no wrap-around.
\<close>

theorem bufferToWav_clamps_then_scales:
  assumes "wf_AudioBuffer b"
    and "i < buf_length b"
    and "channels b ! 0 ! i = Fin r"
  shows "case bufferToWav b of
           Inl e \<Rightarrow> False
         | Inr blob \<Rightarrow>
             sint (getInt16 (blob_bytes blob) (44 + 2 * i))
               = (let c = max (- 1) (min 1 r)
                  in if c < 0 then js_truncate (c * 32768) else js_truncate (c * 32767))"
proof -
  from assms(1) have "1 \<le> numberOfChannels b" "length (channels b) = numberOfChannels b"
    by (simp_all add: wf_AudioBuffer_def)
  then have "channels b ! 0 \<in> set (channels b)" by simp
  with assms(1) have len: "length (channels b ! 0) = buf_length b"
    by (simp add: wf_AudioBuffer_def)
  have "getInt16 (Uint8Array_of_Int16Array (map quantize (channels b ! 0))) (2 * i)
      = quantize (Fin r)"
    using getInt16_Uint8Array_of_Int16Array [of i "map quantize (channels b ! 0)"]
      len assms(2,3) by simp
  then show ?thesis
    using quantize_Fin [of r]
    by (simp add: bufferToWav_wf [OF assms(1)] getInt16_after_header length_wavHeader)
qed

theorem bufferToWav_clamps_then_scales_witness:
  "1 < buf_length mono_buffer \<and>
   channels mono_buffer ! 0 ! 1 = Fin (- 3) \<and>
   (case bufferToWav mono_buffer of
      Inl e \<Rightarrow> False
    | Inr blob \<Rightarrow> sint (getInt16 (blob_bytes blob) 46) = - 32768)"
proof -
  have h2: "1 < buf_length mono_buffer" by (simp add: mono_buffer_def)
  have h3: "channels mono_buffer ! 0 ! 1 = Fin (- 3)" by (simp add: mono_buffer_def)
  from bufferToWav_clamps_then_scales [OF wf_mono_buffer h2 h3] h2 h3
  show ?thesis
    by (simp add: js_truncate_def split: sum.splits)
qed

subsection \<open>The teardown of a recording\<close>

lemma stopRecordingFlow_closed_form:
  "stopRecordingFlow s =
     s\<lparr>isRecording := False,
       sessionPromiseRef := False,
       mediaStreamSourceRef := False,
       scriptProcessorRef := False,
       audioContextRef := (if context_open s then None else audioContextRef s),
       microtasks := microtasks s @ (if sessionPromiseRef s then [CloseSession] else []),
       effects := effects s
         @ (if mediaStreamSourceRef s then [SourceDisconnect] else [])
         @ (if scriptProcessorRef s then [ProcessorDisconnect, ProcessorClearCallback] else [])
         @ (if context_open s then [ContextClose] else [])\<rparr>"
  by (cases "sessionPromiseRef s"; cases "mediaStreamSourceRef s"; cases "scriptProcessorRef s";
      cases "audioContextRef s")
    (simp_all add: stopRecordingFlow_def context_open_def)

lemma torn_down_stopRecordingFlow: "torn_down (stopRecordingFlow s)"
  by (simp add: stopRecordingFlow_closed_form torn_down_def context_open_def split: option.splits)

lemma stopRecordingFlow_torn_down: "torn_down s \<Longrightarrow> stopRecordingFlow s = s"
  by (simp add: stopRecordingFlow_closed_form torn_down_def)

lemma fold_run_task:
  "fold run_task ts s =
     s\<lparr>effects := effects s @ map (\<lambda>t. SessionClose) ts,
       events := events s @ map (\<lambda>t. OnClose) ts\<rparr>"
proof (induction ts arbitrary: s)
  case Nil
  show ?case by simp
next
  case (Cons t ts)
  show ?case by (cases t) (simp add: Cons.IH)
qed

lemma fold_deliver:
  "fold deliver es s = s\<lparr>effects := effects s @ map (\<lambda>e. TracksStop) es\<rparr>"
proof (induction es arbitrary: s)
  case Nil
  show ?case by simp
next
  case (Cons e es)
  show ?case by (cases e) (simp add: Cons.IH onclose_def)
qed

lemma torn_down_run_microtasks: "torn_down s \<Longrightarrow> torn_down (run_microtasks s)"
  by (cases "sessionPromise s")
    (simp_all add: run_microtasks_def fold_run_task torn_down_def context_open_def)

lemma torn_down_deliver_events: "torn_down s \<Longrightarrow> torn_down (deliver_events s)"
  by (simp add: deliver_events_def fold_deliver torn_down_def context_open_def)

text \<open>
  Claim C8. Teardown is idempotent: a second \<open>stopRecordingFlow\<close> right after the first, or
  after the queued reactions have run and the session's events have been delivered, returns
  the state it is given. No branch of the function raises, and since the trace of effects is
  part of the state, no resource is released a second time.
\<close>

theorem stopRecordingFlow_idempotent:
  "stopRecordingFlow (stopRecordingFlow s) = stopRecordingFlow s \<and>
   stopRecordingFlow (deliver_events (run_microtasks (stopRecordingFlow s)))
     = deliver_events (run_microtasks (stopRecordingFlow s))"
  using torn_down_stopRecordingFlow [of s]
  by (simp add: stopRecordingFlow_torn_down torn_down_run_microtasks torn_down_deliver_events)

lemma dropWhile_all_iff:
  "(\<forall>x \<in> set (dropWhile P xs). P x) \<longleftrightarrow> (\<forall>x \<in> set xs. P x)"
proof
  assume a: "\<forall>x \<in> set (dropWhile P xs). P x"
  have "dropWhile P xs = []"
  proof (rule ccontr)
    assume n: "dropWhile P xs \<noteq> []"
    then have "\<not> P (hd (dropWhile P xs))" by (rule hd_dropWhile)
    moreover from n have "hd (dropWhile P xs) \<in> set (dropWhile P xs)" by simp
    ultimately show False using a by blast
  qed
  then show "\<forall>x \<in> set xs. P x" by (simp add: dropWhile_eq_Nil_conv)
next
  assume "\<forall>x \<in> set xs. P x"
  then show "\<forall>x \<in> set (dropWhile P xs). P x" by (meson set_dropWhileD)
qed

lemma trim_empty_iff: "trim s = [] \<longleftrightarrow> (\<forall>c \<in> set s. is_white_space c)"
  by (simp add: trim_def dropWhile_eq_Nil_conv dropWhile_all_iff)

lemma set_up_context_open: "set_up s \<Longrightarrow> context_open s"
  by (simp add: set_up_def)

lemma stop_teardown_trace:
  assumes "set_up s"
  shows "microtasks (stopRecordingFlow s) = [CloseSession]"
    and "effects (stopRecordingFlow s)
           = effects s @ [SourceDisconnect, ProcessorDisconnect, ProcessorClearCallback, ContextClose]"
    and "effects (deliver_events (run_microtasks (stopRecordingFlow s)))
           = effects s @ [SourceDisconnect, ProcessorDisconnect, ProcessorClearCallback,
                          ContextClose, SessionClose, TracksStop]"
proof -
  from assms have c: "context_open s" by (rule set_up_context_open)
  from assms have r: "sessionPromiseRef s" "mediaStreamSourceRef s" "scriptProcessorRef s"
    "sessionPromise s = Fulfilled" "microtasks s = []" "events s = []"
    by (simp_all add: set_up_def)
  show "microtasks (stopRecordingFlow s) = [CloseSession]"
    using c r by (simp add: stopRecordingFlow_closed_form)
  show "effects (stopRecordingFlow s)
           = effects s @ [SourceDisconnect, ProcessorDisconnect, ProcessorClearCallback, ContextClose]"
    using c r by (simp add: stopRecordingFlow_closed_form)
  show "effects (deliver_events (run_microtasks (stopRecordingFlow s)))
           = effects s @ [SourceDisconnect, ProcessorDisconnect, ProcessorClearCallback,
                          ContextClose, SessionClose, TracksStop]"
    using c r
    by (simp add: stopRecordingFlow_closed_form run_microtasks_def fold_run_task
        deliver_events_def onclose_def)
qed

lemma set_up_recording_state: "set_up (recording_state Fulfilled t)"
  by (simp add: set_up_def context_open_def recording_state_def)

lemma trace_fulfilled:
  "effects (deliver_events (run_microtasks (stopRecordingFlow (recording_state Fulfilled t))))
     = [SourceDisconnect, ProcessorDisconnect, ProcessorClearCallback, ContextClose, SessionClose, TracksStop]"
  using stop_teardown_trace(3) [OF set_up_recording_state, of t]
  by (simp add: recording_state_def)

lemma trace_rejected:
  "effects (deliver_events (run_microtasks (stopRecordingFlow (recording_state Rejected t))))
     = [SourceDisconnect, ProcessorDisconnect, ProcessorClearCallback, ContextClose]"
  by (simp add: stopRecordingFlow_closed_form run_microtasks_def deliver_events_def
      recording_state_def context_open_def)

text \<open>
  Claim C6, as the code has it. From a recording in progress \<open>stopRecordingFlow\<close> queues the
  close of the live session as a reaction on the connection promise and, before returning,
  disconnects the capture source, disconnects the processing node, clears its callback and
  closes the audio context, in this order. The queued \<open>session.close()\<close> runs after these, and
  the tracks of the capture stream are stopped last, by the session's \<open>onclose\<close> callback.
\<close>

theorem stopRecordingFlow_teardown_order:
  assumes "set_up s"
  shows "microtasks (stopRecordingFlow s) = [CloseSession]
       \<and> effects (stopRecordingFlow s)
           = effects s @ [SourceDisconnect, ProcessorDisconnect, ProcessorClearCallback, ContextClose]
       \<and> effects (deliver_events (run_microtasks (stopRecordingFlow s)))
           = effects s @ [SourceDisconnect, ProcessorDisconnect, ProcessorClearCallback,
                          ContextClose, SessionClose, TracksStop]"
  using stop_teardown_trace [OF assms] by simp

theorem stopRecordingFlow_teardown_order_witness:
  "set_up (recording_state Fulfilled []) \<and>
   microtasks (stopRecordingFlow (recording_state Fulfilled [])) = [CloseSession] \<and>
   effects (stopRecordingFlow (recording_state Fulfilled []))
     = [SourceDisconnect, ProcessorDisconnect, ProcessorClearCallback, ContextClose] \<and>
   effects (deliver_events (run_microtasks (stopRecordingFlow (recording_state Fulfilled []))))
     = [SourceDisconnect, ProcessorDisconnect, ProcessorClearCallback, ContextClose,
        SessionClose, TracksStop]"
proof -
  have h: "set_up (recording_state Fulfilled [])"
    by (simp add: set_up_def context_open_def recording_state_def)
  have e: "effects (recording_state Fulfilled []) = []" by (simp add: recording_state_def)
  from stopRecordingFlow_teardown_order [OF h] h e show ?thesis by simp
qed

text \<open>
  Claim C6 as the specification words it puts the close of the live session before the
  release of the capture device, on every stop. With the connection made, the audio context
  is closed before the session is. With the connection promise rejected while the recording
  flag is set, the reaction never runs: the session is not closed and the tracks of the
  capture stream are not stopped at all.
\<close>

theorem stopRecordingFlow_teardown_order_counterexample:
  "\<not> spec_teardown_order ContextClose
        (effects (deliver_events (run_microtasks (stopRecordingFlow (recording_state Fulfilled [])))))
   \<and> \<not> spec_teardown_order TracksStop
        (effects (deliver_events (run_microtasks (stopRecordingFlow (recording_state Rejected [])))))"
  by (simp add: trace_fulfilled trace_rejected spec_teardown_order_def occurs_before_def)

subsection \<open>Stopping and starting a recording\<close>

lemma fold_onmessage:
  "fold onmessage late s = s\<lparr>transcriptRef := transcriptRef s @ concat (map message_text late)\<rparr>"
proof (induction late arbitrary: s)
  case Nil
  show ?case by simp
next
  case (Cons m ms)
  have "fold onmessage (m # ms) s = fold onmessage ms (onmessage m s)" by simp
  also have "\<dots> = (onmessage m s)\<lparr>transcriptRef :=
      transcriptRef (onmessage m s) @ concat (map message_text ms)\<rparr>"
    by (rule Cons.IH)
  also have "\<dots> = s\<lparr>transcriptRef := transcriptRef s @ concat (map message_text (m # ms))\<rparr>"
    by (cases m) (simp_all add: onmessage_def message_text_def)
  finally show ?case .
qed

lemma service_calls_stopRecordingFlow:
  "filter is_service_call (effects (stopRecordingFlow s)) = filter is_service_call (effects s)"
  by (simp add: stopRecordingFlow_closed_form)

lemma service_calls_run_microtasks:
  "filter is_service_call (effects (run_microtasks s)) = filter is_service_call (effects s)"
  by (cases "sessionPromise s") (simp_all add: run_microtasks_def fold_run_task filter_map comp_def)

lemma transcriptRef_stopRecordingFlow: "transcriptRef (stopRecordingFlow s) = transcriptRef s"
  by (simp add: stopRecordingFlow_closed_form)

lemma finalAudio_stopRecordingFlow: "finalAudio (stopRecordingFlow s) = finalAudio s"
  by (simp add: stopRecordingFlow_closed_form)

lemma run_microtasks_fields:
  "transcriptRef (run_microtasks s) = transcriptRef s"
  "finalAudio (run_microtasks s) = finalAudio s"
  by (cases "sessionPromise s"; simp add: run_microtasks_def fold_run_task)+

text \<open>
  Claim C5. When a recording is stopped and the transcript, with whatever the live session
  still delivers during the settle interval, is empty or consists of white space only, the
  handler reports that no speech was detected and calls neither \<open>summarizeText\<close> nor
  \<open>synthesizeSpeech\<close>; no audio result is stored and the processing flag is reset.
\<close>

theorem handleStopRecording_no_speech:
  assumes "isRecording s"
    and "\<forall>c \<in> set (transcriptRef s @ concat (map message_text late)). is_white_space c"
  shows "error (handleStopRecording ai late s)
           = Some ''No speech was detected. Please try recording again.''
       \<and> filter is_service_call (effects (handleStopRecording ai late s))
           = filter is_service_call (effects s)
       \<and> finalAudio (handleStopRecording ai late s) = finalAudio s
       \<and> \<not> isProcessing (handleStopRecording ai late s)"
proof -
  define s1 where "s1 = run_microtasks ((stopRecordingFlow s)\<lparr>isProcessing := True, error := None\<rparr>)"
  define s2 where "s2 = fold onmessage late s1"
  have t1: "transcriptRef s1 = transcriptRef s"
    by (simp add: s1_def run_microtasks_fields transcriptRef_stopRecordingFlow)
  have t2: "transcriptRef s2 = transcriptRef s @ concat (map message_text late)"
    by (simp add: s2_def fold_onmessage t1)
  with assms(2) have blank: "trim (transcriptRef s2) = []"
    by (simp only: trim_empty_iff)
  have e1: "filter is_service_call (effects s1) = filter is_service_call (effects s)"
    using service_calls_stopRecordingFlow [of s]
    by (simp add: s1_def service_calls_run_microtasks)
  have e2: "effects s2 = effects s1" and f2: "finalAudio s2 = finalAudio s"
    by (simp_all add: s2_def fold_onmessage s1_def run_microtasks_fields
        finalAudio_stopRecordingFlow)
  have "handleStopRecording ai late s
      = handleStopRecording_finally
          (s2\<lparr>error := Some ''No speech was detected. Please try recording again.'',
              isProcessing := False\<rparr>)"
    using assms(1) blank
    by (simp add: handleStopRecording_def Let_def s2_def [symmetric] s1_def [symmetric])
  then show ?thesis
    by (simp add: handleStopRecording_finally_def e1 e2 f2)
qed

theorem handleStopRecording_no_speech_witness:
  "isRecording (recording_state Fulfilled (lit '' '')) \<and>
   error (handleStopRecording echo_api [Some (lit ''  ''), None] (recording_state Fulfilled (lit '' '')))
     = Some ''No speech was detected. Please try recording again.'' \<and>
   filter is_service_call
     (effects (handleStopRecording echo_api [Some (lit ''  ''), None]
        (recording_state Fulfilled (lit '' '')))) = []"
proof -
  have h1: "isRecording (recording_state Fulfilled (lit '' ''))"
    by (simp add: recording_state_def)
  have h2: "\<forall>c \<in> set (transcriptRef (recording_state Fulfilled (lit '' ''))
                 @ concat (map message_text [Some (lit ''  ''), None])). is_white_space c"
    by (simp add: recording_state_def lit_def message_text_def is_white_space_def)
  have e: "effects (recording_state Fulfilled (lit '' '')) = []"
    by (simp add: recording_state_def)
  from handleStopRecording_no_speech [OF h1 h2, of echo_api] h1 e show ?thesis
    by simp
qed

text \<open>
  With a transcript that is not blank both calls are made, in order, after the teardown.
\<close>

lemma handleStopRecording_speech_example:
  "finalAudio (handleStopRecording echo_api [] (recording_state Fulfilled (lit ''um hello'')))
     = Some (lit ''AAAA'') \<and>
   effects (handleStopRecording echo_api [] (recording_state Fulfilled (lit ''um hello'')))
     = [SourceDisconnect, ProcessorDisconnect, ProcessorClearCallback, ContextClose, SessionClose,
        CallSummarizeText (lit ''um hello''), CallSynthesizeSpeech (lit ''Hello world.'') Female]"
proof -
  let ?s = "recording_state Fulfilled (lit ''um hello'')"
  have s1: "run_microtasks ((stopRecordingFlow ?s)\<lparr>isProcessing := True, error := None\<rparr>)
      = ?s\<lparr>isRecording := False, sessionPromiseRef := False, mediaStreamSourceRef := False,
           scriptProcessorRef := False, audioContextRef := None, isProcessing := True,
           events := [OnClose],
           effects := [SourceDisconnect, ProcessorDisconnect, ProcessorClearCallback,
                       ContextClose, SessionClose]\<rparr>"
    by (simp add: stopRecordingFlow_closed_form run_microtasks_def recording_state_def
        context_open_def)
  have nb: "trim (lit ''um hello'') \<noteq> []"
    by (simp add: trim_empty_iff lit_def is_white_space_def)
  have t: "transcriptRef ?s = lit ''um hello''" "selectedVoice ?s = Female"
    by (simp_all add: recording_state_def)
  have sum: "summarizeText echo_api t = Inr (lit ''Hello world.'')" for t
    by (simp add: summarizeText_def echo_api_def)
  have syn: "synthesizeSpeech echo_api t v = Inr (lit ''AAAA'')" for t v
    by (simp add: synthesizeSpeech_def synthesizeSpeech_try_def echo_api_def base64Audio_of_def
        first_elem_def lit_def)
  have rec: "isRecording ?s" by (simp add: recording_state_def)
  show ?thesis
    using nb rec
    by (simp add: handleStopRecording_def Let_def s1 t sum syn handleStopRecording_finally_def)
qed

text \<open>
  Claim C10. \<open>handleStartRecording\<close> clears the transcript and the final audio before it
  looks at the recording flag: both are empty in every outcome. Invoked while recording, it
  equals \<open>stopRecordingFlow\<close> on the cleared state, so the transcript is discarded and the
  session is torn down: every resource still held is released, in the order of
  \<open>stopRecordingFlow\<close>, and the close of the live session is queued if the session ref is set.
  From a recording in progress these are the disconnect of the capture source, the disconnect
  and clearing of the processing node and the close of the audio context, followed, once the
  queued reaction and the session's close event have run, by the close of the session and the
  stop of the tracks. No call to the text and speech service is made at any point and no
  audio result exists.
\<close>

theorem handleStartRecording_clears_first:
  "transcriptRef (handleStartRecording outcome s) = [] \<and>
   finalAudio (handleStartRecording outcome s) = None \<and>
   (isRecording s \<longrightarrow>
      handleStartRecording outcome s
        = stopRecordingFlow (s\<lparr>error := None, finalAudio := None, transcriptRef := []\<rparr>) \<and>
      torn_down (handleStartRecording outcome s) \<and>
      filter is_service_call (effects (handleStartRecording outcome s))
        = filter is_service_call (effects s) \<and>
      effects (handleStartRecording outcome s)
        = effects s
          @ (if mediaStreamSourceRef s then [SourceDisconnect] else [])
          @ (if scriptProcessorRef s then [ProcessorDisconnect, ProcessorClearCallback] else [])
          @ (if context_open s then [ContextClose] else []) \<and>
      microtasks (handleStartRecording outcome s)
        = microtasks s @ (if sessionPromiseRef s then [CloseSession] else [])) \<and>
   (isRecording s \<and> set_up s \<longrightarrow>
      effects (handleStartRecording outcome s)
        = effects s @ [SourceDisconnect, ProcessorDisconnect, ProcessorClearCallback, ContextClose] \<and>
      microtasks (handleStartRecording outcome s) = [CloseSession] \<and>
      effects (deliver_events (run_microtasks (handleStartRecording outcome s)))
        = effects s @ [SourceDisconnect, ProcessorDisconnect, ProcessorClearCallback,
                       ContextClose, SessionClose, TracksStop] \<and>
      transcriptRef (deliver_events (run_microtasks (handleStartRecording outcome s))) = [] \<and>
      finalAudio (deliver_events (run_microtasks (handleStartRecording outcome s))) = None)"
proof -
  let ?c = "s\<lparr>error := None, finalAudio := None, transcriptRef := []\<rparr>"
  let ?h = "handleStartRecording outcome s"
  have rec: "?h = stopRecordingFlow ?c" if "isRecording s"
    using that by (simp add: handleStartRecording_def)
  have a: "transcriptRef ?h = []" "finalAudio ?h = None"
  proof -
    show "transcriptRef ?h = []"
    proof (cases "isRecording s")
      case True
      then show ?thesis by (simp add: rec transcriptRef_stopRecordingFlow)
    next
      case False
      then show ?thesis by (cases outcome) (simp_all add: handleStartRecording_def)
    qed
    show "finalAudio ?h = None"
    proof (cases "isRecording s")
      case True
      then show ?thesis by (simp add: rec finalAudio_stopRecordingFlow)
    next
      case False
      then show ?thesis by (cases outcome) (simp_all add: handleStartRecording_def)
    qed
  qed
  have co: "context_open ?c = context_open s"
    by (simp add: context_open_def)
  have b: "torn_down ?h \<and> filter is_service_call (effects ?h) = filter is_service_call (effects s)"
    if "isRecording s"
    using service_calls_stopRecordingFlow [of ?c] torn_down_stopRecordingFlow [of ?c]
    by (simp add: rec [OF that])
  have c: "effects ?h
        = effects s
          @ (if mediaStreamSourceRef s then [SourceDisconnect] else [])
          @ (if scriptProcessorRef s then [ProcessorDisconnect, ProcessorClearCallback] else [])
          @ (if context_open s then [ContextClose] else [])
      \<and> microtasks ?h = microtasks s @ (if sessionPromiseRef s then [CloseSession] else [])"
    if "isRecording s"
    by (simp add: rec [OF that] stopRecordingFlow_closed_form [of ?c] co)
  have d: "effects ?h
        = effects s @ [SourceDisconnect, ProcessorDisconnect, ProcessorClearCallback, ContextClose]
      \<and> microtasks ?h = [CloseSession]
      \<and> effects (deliver_events (run_microtasks ?h))
        = effects s @ [SourceDisconnect, ProcessorDisconnect, ProcessorClearCallback,
                       ContextClose, SessionClose, TracksStop]
      \<and> transcriptRef (deliver_events (run_microtasks ?h)) = []
      \<and> finalAudio (deliver_events (run_microtasks ?h)) = None"
    if r: "isRecording s" and su: "set_up s"
  proof -
    from su have su': "set_up ?c" by (simp add: set_up_def co)
    have ev: "transcriptRef (deliver_events x) = transcriptRef x"
      "finalAudio (deliver_events x) = finalAudio x" for x
      by (simp_all add: deliver_events_def fold_deliver)
    from stop_teardown_trace [OF su'] a show ?thesis
      by (simp add: rec [OF r, symmetric] ev run_microtasks_fields)
  qed
  from a b c d rec show ?thesis by blast
qed

theorem handleStartRecording_clears_first_witness:
  "isRecording (recording_state Fulfilled (lit ''hello'')) \<and>
   set_up (recording_state Fulfilled (lit ''hello'')) \<and>
   transcriptRef (handleStartRecording Started (recording_state Fulfilled (lit ''hello''))) = [] \<and>
   finalAudio (handleStartRecording Started (recording_state Fulfilled (lit ''hello''))) = None \<and>
   torn_down (handleStartRecording Started (recording_state Fulfilled (lit ''hello''))) \<and>
   filter is_service_call
     (effects (handleStartRecording Started (recording_state Fulfilled (lit ''hello'')))) = [] \<and>
   effects (handleStartRecording Started (recording_state Fulfilled (lit ''hello'')))
     = [SourceDisconnect, ProcessorDisconnect, ProcessorClearCallback, ContextClose] \<and>
   microtasks (handleStartRecording Started (recording_state Fulfilled (lit ''hello'')))
     = [CloseSession] \<and>
   effects (deliver_events (run_microtasks
       (handleStartRecording Started (recording_state Fulfilled (lit ''hello'')))))
     = [SourceDisconnect, ProcessorDisconnect, ProcessorClearCallback, ContextClose,
        SessionClose, TracksStop]"
proof -
  let ?s = "recording_state Fulfilled (lit ''hello'')"
  have h: "isRecording ?s"
    by (simp add: recording_state_def)
  have su: "set_up ?s"
    by (rule set_up_recording_state)
  have e: "effects ?s = []"
    by (simp add: recording_state_def)
  note t = handleStartRecording_clears_first [of Started ?s]
  from t have a:
    "transcriptRef (handleStartRecording Started ?s) = []"
    "finalAudio (handleStartRecording Started ?s) = None"
    by blast+
  from t h have b:
    "torn_down (handleStartRecording Started ?s)"
    "filter is_service_call (effects (handleStartRecording Started ?s))
     = filter is_service_call (effects ?s)"
    by blast+
  from t h su have c:
    "effects (handleStartRecording Started ?s)
     = effects ?s @ [SourceDisconnect, ProcessorDisconnect, ProcessorClearCallback, ContextClose]"
    "microtasks (handleStartRecording Started ?s) = [CloseSession]"
    "effects (deliver_events (run_microtasks (handleStartRecording Started ?s)))
     = effects ?s @ [SourceDisconnect, ProcessorDisconnect, ProcessorClearCallback,
                     ContextClose, SessionClose, TracksStop]"
    by blast+
  from a b c h su e show ?thesis by simp
qed

subsection \<open>Speech synthesis\<close>

lemma synthesizeSpeech_error:
  "synthesizeSpeech ai text voice = Inl err \<Longrightarrow> err = Error ''Failed to synthesize speech.''"
  by (auto simp: synthesizeSpeech_def split: sum.splits)

text \<open>
  Claim C7 at a response without candidates. The \<open>try\<close> block throws the specific error
  \<open>No audio data received from API.\<close>, but the \<open>catch\<close> of the same function replaces it:
  the caller receives \<open>Failed to synthesize speech.\<close>, the very error it receives when the
  request itself fails.
\<close>

theorem synthesizeSpeech_no_audio_generic:
  "synthesizeSpeech_try \<lparr>generate_text = gt, generate_audio = (\<lambda>t v. Inr (Response None))\<rparr> text voice
     = Inl (Error ''No audio data received from API.'') \<and>
   synthesizeSpeech \<lparr>generate_text = gt, generate_audio = (\<lambda>t v. Inr (Response None))\<rparr> text voice
     = Inl (Error ''Failed to synthesize speech.'') \<and>
   synthesizeSpeech \<lparr>generate_text = gt, generate_audio = (\<lambda>t v. Inl e)\<rparr> text voice
     = Inl (Error ''Failed to synthesize speech.'')"
  by (simp add: synthesizeSpeech_def synthesizeSpeech_try_def base64Audio_of_def first_elem_def)

end
